theory Spec2Isabelle
  imports Main "HOL-Library.Char_ord" "HOL-Library.List_Lexorder" "HOL-Library.Multiset"
    "HOL-Library.Sublist"
begin

section \<open>BrewGI: the package manager adapter, the import dialog and the batch executor\<close>

text \<open>
  The development follows \<^verbatim>\<open>BrewGI.py\<close>. The program shells out to the \<^verbatim>\<open>brew\<close>
  binary; the binary and the operating system are not part of the program, so they are a
  parameter of every definition: a function from the argument vector and the state of the
  outside world to what the child process did and the next state of the world.
  Text is \<open>string\<close>; the output of a child process is taken as already decoded
  (\<^verbatim>\<open>text=True\<close>).
\<close>

subsection \<open>Python strings: \<^verbatim>\<open>splitlines\<close>, \<^verbatim>\<open>strip\<close>, \<^verbatim>\<open>replace\<close>\<close>

definition is_linebreak :: "char \<Rightarrow> bool" where
  \<comment> \<open>the line boundaries of \<^verbatim>\<open>str.splitlines\<close> below code point 256:
      LF, VT, FF, CR, FS, GS, RS and NEL\<close>
  "is_linebreak c = ((of_char c :: nat) \<in> set [10, 11, 12, 13, 28, 29, 30, 133])"

fun splitlines_from :: "string \<Rightarrow> string \<Rightarrow> string list" where
  \<comment> \<open>the first argument is the line read so far, reversed; CR LF is one boundary;
      no empty last line is produced\<close>
  "splitlines_from cur [] = (if cur = [] then [] else [rev cur])"
| "splitlines_from cur (c # cs) =
     (if is_linebreak c
      then rev cur # splitlines_from []
             (if (of_char c :: nat) = 13 \<and> cs \<noteq> [] \<and> (of_char (hd cs) :: nat) = 10 then tl cs else cs)
      else splitlines_from (c # cur) cs)"

definition splitlines :: "string \<Rightarrow> string list" where
  "splitlines s = splitlines_from [] s"

definition isspace :: "char \<Rightarrow> bool" where
  \<comment> \<open>\<^verbatim>\<open>str.isspace\<close> below code point 256\<close>
  "isspace c = ((of_char c :: nat) \<in> set [9, 10, 11, 12, 13, 28, 29, 30, 31, 32, 133, 160])"

definition strip :: "string \<Rightarrow> string" where
  "strip s = rev (dropWhile isspace (rev (dropWhile isspace s)))"

function str_replace :: "string \<Rightarrow> string \<Rightarrow> string \<Rightarrow> string" where
  \<comment> \<open>\<^verbatim>\<open>s.replace(old, new)\<close>: every occurrence of \<open>old\<close>, found from the left and
      not overlapping; an empty \<open>old\<close> matches before every character and at the end\<close>
  "str_replace old new s =
     (if old = [] then new @ concat (map (\<lambda>c. c # new) s)
      else if s = [] then []
      else if prefix old s then new @ str_replace old new (drop (length old) s)
      else hd s # str_replace old new (tl s))"
  by pat_completeness auto
termination
  by (relation "measure (\<lambda>(old, new, s). length s)") auto

declare str_replace.simps [simp del]

subsection \<open>The \<^verbatim>\<open>subprocess\<close> module\<close>

datatype completed = Completed (returncode: int) (stdout: string) (stderr: string)

datatype exn =
    CalledProcessError int
  | OSError string
  | JSONDecodeError string
  | AttributeError
  | TypeError

text \<open>
  The outside world, as \<^verbatim>\<open>subprocess.run\<close> sees it: \<open>Inl msg\<close> is a child that
  could not be launched (the binary is missing or not executable; an \<^verbatim>\<open>OSError\<close> whose
  text is \<open>msg\<close>), \<open>Inr p\<close> is a child that ran and exited.
\<close>

type_synonym 'w os = "string list \<Rightarrow> 'w \<Rightarrow> (string + completed) \<times> 'w"

definition check_call :: "'w os \<Rightarrow> string list \<Rightarrow> 'w \<Rightarrow> (exn + unit) \<times> 'w" where
  "check_call os argv w =
     (case os argv w of
        (Inl msg, w') \<Rightarrow> (Inl (OSError msg), w')
      | (Inr p, w') \<Rightarrow>
          (if returncode p = 0 then Inr () else Inl (CalledProcessError (returncode p)), w'))"

definition check_output :: "'w os \<Rightarrow> string list \<Rightarrow> 'w \<Rightarrow> (exn + string) \<times> 'w" where
  "check_output os argv w =
     (case os argv w of
        (Inl msg, w') \<Rightarrow> (Inl (OSError msg), w')
      | (Inr p, w') \<Rightarrow>
          (if returncode p = 0 then Inr (stdout p) else Inl (CalledProcessError (returncode p)), w'))"

fun except_CalledProcessError :: "exn + 'a \<Rightarrow> 'a \<Rightarrow> exn + 'a" where
  \<comment> \<open>\<^verbatim>\<open>try: v = ... except subprocess.CalledProcessError: v = d\<close>: every other
      exception goes on to the caller\<close>
  "except_CalledProcessError (Inr v) d = Inr v"
| "except_CalledProcessError (Inl (CalledProcessError rc)) d = Inr d"
| "except_CalledProcessError (Inl e) d = Inl e"

subsection \<open>The adapter\<close>

definition BREW_PATH :: string where
  "BREW_PATH = ''/opt/homebrew/bin/brew''"

definition get_brew_apps :: "'w os \<Rightarrow> 'w \<Rightarrow> (exn + string list \<times> string list) \<times> 'w" where
  "get_brew_apps os w =
     (case check_output os [BREW_PATH, ''list'', ''--cask''] w of (r1, w1) \<Rightarrow>
        (case except_CalledProcessError (map_sum id splitlines r1) [] of
           Inl e \<Rightarrow> (Inl e, w1)
         | Inr cask_apps \<Rightarrow>
             (case check_output os [BREW_PATH, ''list''] w1 of (r2, w2) \<Rightarrow>
                (case except_CalledProcessError (map_sum id splitlines r2) [] of
                   Inl e \<Rightarrow> (Inl e, w2)
                 | Inr formula_apps \<Rightarrow> (Inr (cask_apps, formula_apps), w2)))))"

definition search_brew_apps :: "'w os \<Rightarrow> string \<Rightarrow> 'w \<Rightarrow> (exn + string list) \<times> 'w" where
  "search_brew_apps os query w =
     (case check_output os [BREW_PATH, ''search'', query] w of (r, w') \<Rightarrow>
        (except_CalledProcessError (map_sum id splitlines r) [], w'))"

definition uninstall_brew_app :: "'w os \<Rightarrow> string \<Rightarrow> 'w \<Rightarrow> (bool \<times> string) \<times> 'w" where
  \<comment> \<open>\<^verbatim>\<open>subprocess.run\<close> without \<^verbatim>\<open>check\<close>: a non-zero exit raises nothing;
      \<^verbatim>\<open>except Exception as e: return False, str(e)\<close> leaves no exception to the caller\<close>
  "uninstall_brew_app os app w =
     (case os [BREW_PATH, ''uninstall'', ''--force'', app] w of
        (Inr result, w') \<Rightarrow>
          (if returncode result = 0 then (True, '''') else (False, strip (stderr result)), w')
      | (Inl msg, w') \<Rightarrow> ((False, msg), w'))"

subsection \<open>The batch executor: \<^verbatim>\<open>BrewInstaller.run\<close>\<close>

fun run_loop ::
  "'w os \<Rightarrow> string list \<Rightarrow> string list \<Rightarrow> string list \<Rightarrow> 'w
     \<Rightarrow> (exn + string list \<times> string list) \<times> 'w" where
  "run_loop os [] successes failures w = (Inr (successes, failures), w)"
| "run_loop os (app # apps) successes failures w =
     (case check_call os [''brew'', ''install'', app] w of
        (Inr u, w') \<Rightarrow> run_loop os apps (successes @ [app]) failures w'
      | (Inl (CalledProcessError rc), w') \<Rightarrow> run_loop os apps successes (failures @ [app]) w'
      | (Inl e, w') \<Rightarrow> (Inl e, w'))"

definition run :: "'w os \<Rightarrow> string list \<Rightarrow> 'w \<Rightarrow> (exn + string list \<times> string list) \<times> 'w" where
  \<comment> \<open>\<open>Inr (successes, failures)\<close> is \<^verbatim>\<open>self.finished.emit(successes, failures)\<close>;
      \<open>Inl e\<close> is the exception that ends the thread before the signal is emitted\<close>
  "run os apps w = run_loop os apps [] [] w"

subsection \<open>List widgets\<close>

text \<open>
  A \<^verbatim>\<open>QListWidgetItem\<close>, as far as the program reads it back: its text, whether its
  check state is \<^verbatim>\<open>Qt.Checked\<close>, and whether \<^verbatim>\<open>Qt.ItemIsEnabled\<close> is among its
  flags (a new item has it).
\<close>

record item =
  item_text :: string
  item_checked :: bool
  item_enabled :: bool

subsection \<open>JSON documents and files\<close>

text \<open>
  What \<^verbatim>\<open>json.load\<close> returns. The program never reads the value of a number, so
  numbers are kept as integers. An object keeps its members in the order of the document;
  in the \<^verbatim>\<open>dict\<close> the last member with a given name wins.
\<close>

datatype json =
    JNull
  | JBool bool
  | JNum int
  | JStr string
  | JArr "json list"
  | JObj "(string \<times> json) list"

text \<open>
  A file system: for each path, what \<^verbatim>\<open>open(path, "r")\<close> followed by
  \<^verbatim>\<open>json.load\<close> gives (the exception, or the document), and what
  \<^verbatim>\<open>open(path, "w")\<close> raises, if anything. \<^verbatim>\<open>json.dump\<close> followed by
  \<^verbatim>\<open>json.load\<close> is taken to give the document back.
\<close>

record files =
  read_json :: "string \<Rightarrow> exn + json"
  write_error :: "string \<Rightarrow> exn option"

definition dict_get :: "(string \<times> json) list \<Rightarrow> string \<Rightarrow> json \<Rightarrow> json" where
  "dict_get members k d = (case map_of (rev members) k of Some v \<Rightarrow> v | None \<Rightarrow> d)"

fun hashable :: "json \<Rightarrow> bool" where
  "hashable (JArr xs) = False"
| "hashable (JObj members) = False"
| "hashable v = True"

fun py_set :: "json \<Rightarrow> exn + json set" where
  \<comment> \<open>\<^verbatim>\<open>set(v)\<close>: the elements of a list, the characters of a string, the keys of a
      dict. Numbers and booleans that Python holds equal are not merged here: a set with
      any of them ends in \<open>TypeError\<close> below, whatever its other elements.\<close>
  "py_set (JArr xs) = (if list_all hashable xs then Inr (set xs) else Inl TypeError)"
| "py_set (JStr s) = Inr (set (map (\<lambda>c. JStr [c]) s))"
| "py_set (JObj members) = Inr (set (map (\<lambda>m. JStr (fst m)) members))"
| "py_set v = Inl TypeError"

fun is_str :: "json \<Rightarrow> bool" where
  "is_str (JStr s) = True"
| "is_str v = False"

fun str_of :: "json \<Rightarrow> string" where
  "str_of (JStr s) = s"
| "str_of v = []"

subsection \<open>\<^verbatim>\<open>BrewAppStore.export_installed_json\<close>\<close>

definition export_installed_json ::
  "'w os \<Rightarrow> string \<Rightarrow> files \<Rightarrow> 'w \<Rightarrow> (exn + files) \<times> 'w" where
  \<comment> \<open>\<open>path\<close> is what the save dialog returns, empty when the user cancels\<close>
  "export_installed_json os path fs w =
     (case get_brew_apps os w of
        (Inl e, w') \<Rightarrow> (Inl e, w')
      | (Inr (cask_apps, formula_apps), w') \<Rightarrow>
          (let data = JObj [(''cask'', JArr (map JStr cask_apps)),
                            (''formula'', JArr (map JStr formula_apps))]
           in if path \<noteq> []
              then (case write_error fs path of
                      Some e \<Rightarrow> (Inl e, w')
                    | None \<Rightarrow> (Inr (fs\<lparr>read_json := (read_json fs)(path := Inr data)\<rparr>), w'))
              else (Inr fs, w')))"

subsection \<open>\<^verbatim>\<open>BrewAppStore.import_and_install_json\<close>\<close>

definition import_sets :: "exn + json \<Rightarrow> exn + json set \<times> json set" where
  \<comment> \<open>the \<^verbatim>\<open>try\<close> block: \<^verbatim>\<open>data.get\<close> exists on a dict only\<close>
  "import_sets loaded =
     (case loaded of
        Inl e \<Rightarrow> Inl e
      | Inr (JObj members) \<Rightarrow>
          (case py_set (dict_get members ''cask'' (JArr [])) of
             Inl e \<Rightarrow> Inl e
           | Inr import_casks \<Rightarrow>
               (case py_set (dict_get members ''formula'' (JArr [])) of
                  Inl e \<Rightarrow> Inl e
                | Inr import_formulae \<Rightarrow> Inr (import_casks, import_formulae)))
      | Inr v \<Rightarrow> Inl AttributeError)"

definition make_item :: "string set \<Rightarrow> string \<Rightarrow> item" where
  \<comment> \<open>the body of the loop over \<^verbatim>\<open>sorted(all_imported)\<close>\<close>
  "make_item already_installed app =
     (let already = app \<in> already_installed;
          label = app @ (if already then '' (already installed)'' else '''')
      in if already
         then \<lparr>item_text = label, item_checked = False, item_enabled = False\<rparr>
         else \<lparr>item_text = label, item_checked = True, item_enabled = True\<rparr>)"

definition dialog_items :: "json set \<Rightarrow> string set \<Rightarrow> exn + item list" where
  \<comment> \<open>an element that is not a string raises \<^verbatim>\<open>TypeError\<close>: in \<^verbatim>\<open>sorted\<close> when it
      is compared with a string, and at the latest in \<^verbatim>\<open>app + "..."\<close>\<close>
  "dialog_items all_imported already_installed =
     (if \<exists>v \<in> all_imported. \<not> is_str v then Inl TypeError
      else Inr (map (make_item already_installed)
                  (sorted_list_of_set (str_of ` all_imported))))"

datatype import_result =
    NoFileChosen
  | ImportError exn
  | ConfirmDialog "item list"

definition import_and_install_json ::
  "'w os \<Rightarrow> string \<Rightarrow> files \<Rightarrow> 'w \<Rightarrow> (exn + import_result) \<times> 'w" where
  \<comment> \<open>up to \<^verbatim>\<open>dlg.exec_()\<close>. \<open>ImportError e\<close> is the message box
      \<^verbatim>\<open>Failed to read JSON: {e}\<close>; \<open>Inl e\<close> is an exception nothing catches.\<close>
  "import_and_install_json os path fs w =
     (if path = [] then (Inr NoFileChosen, w)
      else case import_sets (read_json fs path) of
        Inl e \<Rightarrow> (Inr (ImportError e), w)
      | Inr (import_casks, import_formulae) \<Rightarrow>
          (case get_brew_apps os w of
             (Inl e, w') \<Rightarrow> (Inl e, w')
           | (Inr (cask_apps, formula_apps), w') \<Rightarrow>
               (let installed_casks = set cask_apps;
                    installed_formulae = set formula_apps;
                    all_imported = import_casks \<union> import_formulae;
                    already_installed = installed_casks \<union> installed_formulae
                in (map_sum id ConfirmDialog (dialog_items all_imported already_installed), w'))))"

definition install_selection :: "item list \<Rightarrow> string list" where
  \<comment> \<open>the list \<^verbatim>\<open>selected\<close> that \<^verbatim>\<open>do_install\<close> of the import dialog collects\<close>
  "install_selection items =
     map (\<lambda>it. str_replace '' (already installed)'' '''' (item_text it))
       (filter (\<lambda>it. item_enabled it \<and> item_checked it) items)"

datatype install_result =
    NoAppsSelected
  | Finished "string list" "string list"

definition do_install :: "'w os \<Rightarrow> item list \<Rightarrow> 'w \<Rightarrow> (exn + install_result) \<times> 'w" where
  \<comment> \<open>the installer thread is run to its end; \<open>Finished\<close> is its signal\<close>
  "do_install os items w =
     (let selected = install_selection items
      in if selected = [] then (Inr NoAppsSelected, w)
         else case run os selected w of
                (Inl e, w') \<Rightarrow> (Inl e, w')
              | (Inr (successes, failures), w') \<Rightarrow> (Inr (Finished successes failures), w'))"

subsection \<open>\<^verbatim>\<open>BrewAppStore.uninstall_selected\<close>\<close>

definition truthy :: "bool \<times> string \<Rightarrow> bool" where
  \<comment> \<open>the truth value of a tuple of two components: a tuple is false only when empty\<close>
  "truthy t = True"

fun uninstall_loop ::
  "'w os \<Rightarrow> string list \<Rightarrow> string list \<Rightarrow> 'w \<Rightarrow> string list \<times> 'w" where
  \<comment> \<open>\<^verbatim>\<open>success\<close> is the pair that \<^verbatim>\<open>uninstall_brew_app\<close> returns; the
      \<^verbatim>\<open>except\<close> branch of the loop is never taken, as the call raises nothing\<close>
  "uninstall_loop os [] errors w = (errors, w)"
| "uninstall_loop os (app # apps) errors w =
     (case uninstall_brew_app os app w of (success, w') \<Rightarrow>
        uninstall_loop os apps (if \<not> truthy success then errors @ [app] else errors) w')"

datatype uninstall_result =
    NothingSelected
  | FailedToUninstall "string list"
  | SelectedAppsUninstalled

definition uninstall_selected :: "'w os \<Rightarrow> item list \<Rightarrow> 'w \<Rightarrow> uninstall_result \<times> 'w" where
  \<comment> \<open>up to the message box; \<^verbatim>\<open>refresh_app_list\<close> follows it\<close>
  "uninstall_selected os list_widget w =
     (let to_uninstall = map item_text (filter item_checked list_widget)
      in if to_uninstall = [] then (NothingSelected, w)
         else case uninstall_loop os to_uninstall [] w of (errors, w') \<Rightarrow>
                (if errors \<noteq> [] then FailedToUninstall errors else SelectedAppsUninstalled, w'))"

subsection \<open>A scripted outside world\<close>

text \<open>
  For the concrete runs below: the state of the world is the list of what the next
  children will do, one entry for each call; when it is used up, the binary is gone.
\<close>

definition scripted :: "(string + completed) list os" where
  "scripted argv w =
     (case w of [] \<Rightarrow> (Inl ''No such file or directory'', []) | r # rs \<Rightarrow> (r, rs))"

text \<open>
  Files for the concrete runs: a list to import, a file that is empty, and no other file.
  In \<open>firefox_installed\<close> the cask \<open>firefox\<close> is installed and no formula is.
\<close>

definition example_files :: files where
  "example_files =
     \<lparr>read_json = (\<lambda>path.
        if path = ''apps.json''
        then Inr (JObj [(''cask'', JArr [JStr ''vscode'', JStr ''firefox'']),
                        (''formula'', JArr [JStr ''vscode''])])
        else if path = ''empty.json''
        then Inl (JSONDecodeError ''Expecting value: line 1 column 1 (char 0)'')
        else Inl (OSError ''No such file or directory'')),
      write_error = (\<lambda>path. None)\<rparr>"

definition firefox_installed :: "(string + completed) list" where
  "firefox_installed = [Inr (Completed 0 ''firefox\<newline>'' []), Inr (Completed 0 [] [])]"


section \<open>Properties\<close>

subsection \<open>Helper lemmas\<close>

lemma strip_trims:
  "\<exists>pre suf. s = pre @ strip s @ suf \<and> (\<forall>c\<in>set pre. isspace c) \<and> (\<forall>c\<in>set suf. isspace c)
     \<and> (strip s \<noteq> [] \<longrightarrow> \<not> isspace (hd (strip s)) \<and> \<not> isspace (last (strip s)))"
proof -
  let ?a = "takeWhile isspace s" and ?b = "dropWhile isspace s"
  let ?c = "rev (takeWhile isspace (rev ?b))"
  have 1: "s = ?a @ ?b" by simp
  have "rev (rev ?b) = rev (takeWhile isspace (rev ?b) @ dropWhile isspace (rev ?b))"
    by (simp only: takeWhile_dropWhile_id)
  then have 2: "?b = strip s @ ?c" by (simp only: rev_rev_ident rev_append strip_def)
  have 3: "\<forall>c\<in>set ?a. isspace c" by (metis set_takeWhileD)
  have 4: "\<forall>c\<in>set ?c. isspace c" by (metis set_rev set_takeWhileD)
  have 5: "strip s \<noteq> [] \<Longrightarrow> \<not> isspace (last (strip s))"
    unfolding strip_def by (simp add: last_rev hd_dropWhile)
  have 6: "strip s \<noteq> [] \<Longrightarrow> \<not> isspace (hd (strip s))"
  proof -
    assume ne: "strip s \<noteq> []"
    have "?b = [] \<Longrightarrow> strip s = []" by (simp only: strip_def rev.simps dropWhile.simps)
    with ne have "?b \<noteq> []" by blast
    then have "\<not> isspace (hd ?b)" by (rule hd_dropWhile)
    moreover have "hd ?b = hd (strip s)" using 2 ne by (metis hd_append2)
    ultimately show ?thesis by simp
  qed
  from 1 2 have "s = ?a @ strip s @ ?c" by simp
  with 3 4 5 6 show ?thesis by blast
qed

lemma run_loop_splits:
  assumes "\<forall>argv w. \<exists>p. fst (os argv w) = Inr p"
  shows "\<exists>s' f' w'. run_loop os apps s f w = (Inr (s @ s', f @ f'), w')
            \<and> mset s' + mset f' = mset apps \<and> subseq s' apps \<and> subseq f' apps"
proof (induction apps arbitrary: s f w)
  case Nil
  show ?case by simp
next
  case (Cons app apps)
  obtain p where p: "fst (os [''brew'', ''install'', app] w) = Inr p"
    using assms by blast
  then obtain w1 where o: "os [''brew'', ''install'', app] w = (Inr p, w1)"
    by (cases "os [''brew'', ''install'', app] w") simp
  show ?case
  proof (cases "returncode p = 0")
    case True
    from Cons.IH [of "s @ [app]" f w1] obtain s' f' w' where
      ih: "run_loop os apps (s @ [app]) f w1 = (Inr ((s @ [app]) @ s', f @ f'), w')"
          "mset s' + mset f' = mset apps" "subseq s' apps" "subseq f' apps"
      by blast
    have "run_loop os (app # apps) s f w = (Inr (s @ (app # s'), f @ f'), w')"
      using o True ih(1) by (simp add: check_call_def)
    moreover have "mset (app # s') + mset f' = mset (app # apps)" using ih(2) by simp
    moreover have "subseq (app # s') (app # apps)" using ih(3) by simp
    moreover have "subseq f' (app # apps)" using ih(4) by (rule list_emb_Cons)
    ultimately show ?thesis by blast
  next
    case False
    from Cons.IH [of s "f @ [app]" w1] obtain s' f' w' where
      ih: "run_loop os apps s (f @ [app]) w1 = (Inr (s @ s', (f @ [app]) @ f'), w')"
          "mset s' + mset f' = mset apps" "subseq s' apps" "subseq f' apps"
      by blast
    have "run_loop os (app # apps) s f w = (Inr (s @ s', f @ (app # f')), w')"
      using o False ih(1) by (simp add: check_call_def)
    moreover have "mset s' + mset (app # f') = mset (app # apps)" using ih(2) by simp
    moreover have "subseq (app # f') (app # apps)" using ih(4) by simp
    moreover have "subseq s' (app # apps)" using ih(3) by (rule list_emb_Cons)
    ultimately show ?thesis by blast
  qed
qed

lemma uninstall_loop_errors: "fst (uninstall_loop os apps errors w) = errors"
  by (induction apps arbitrary: errors w) (simp_all add: truthy_def split: prod.splits)

lemma uninstall_selected_reports_no_failure:
  "fst (uninstall_selected os list_widget w) \<in> {NothingSelected, SelectedAppsUninstalled}"
proof -
  let ?sel = "map item_text (filter item_checked list_widget)"
  obtain errors w' where l: "uninstall_loop os ?sel [] w = (errors, w')"
    by (cases "uninstall_loop os ?sel [] w")
  have "errors = []" using uninstall_loop_errors [of os ?sel "[]" w] l by simp
  with l show ?thesis by (simp add: uninstall_selected_def Let_def)
qed

lemma run_returns:
  assumes "\<forall>argv w. \<exists>p. fst (os argv w) = Inr p"
  shows "\<exists>r. fst (run os apps w) = Inr r"
  using run_loop_splits [OF assms, of apps "[]" "[]" w] by (auto simp: run_def)

lemma hashable_strs: "list_all hashable (map JStr xs)"
  by (induction xs) simp_all

lemma strs_all_str: "\<not> (\<exists>v \<in> JStr ` D. \<not> is_str v)"
  by auto

lemma str_of_strs: "str_of ` JStr ` D = D"
  by (auto simp: image_iff)

lemma import_sets_strs:
  assumes "dict_get members ''cask'' (JArr []) = JArr (map JStr casks)"
      and "dict_get members ''formula'' (JArr []) = JArr (map JStr formulae)"
  shows "import_sets (Inr (JObj members)) = Inr (JStr ` set casks, JStr ` set formulae)"
  using assms by (simp add: import_sets_def hashable_strs)

lemma dialog_items_strs:
  "dialog_items (JStr ` D) I = Inr (map (make_item I) (sorted_list_of_set D))"
  unfolding dialog_items_def by (simp only: strs_all_str str_of_strs if_False)

lemma import_dialog:
  assumes "path \<noteq> []"
      and "read_json fs path = Inr (JObj members)"
      and "dict_get members ''cask'' (JArr []) = JArr (map JStr casks)"
      and "dict_get members ''formula'' (JArr []) = JArr (map JStr formulae)"
      and "get_brew_apps os w = (Inr (cask_apps, formula_apps), w')"
  shows "import_and_install_json os path fs w =
           (Inr (ConfirmDialog (map (make_item (set cask_apps \<union> set formula_apps))
                                  (sorted_list_of_set (set casks \<union> set formulae)))), w')"
proof -
  have u: "JStr ` set casks \<union> JStr ` set formulae = JStr ` (set casks \<union> set formulae)"
    by blast
  show ?thesis
    unfolding import_and_install_json_def
    using assms(1,2,5) import_sets_strs [OF assms(3,4)]
    by (simp add: Let_def u dialog_items_strs)
qed

lemma make_item_fields:
  "item_text (make_item I app) = app @ (if app \<in> I then '' (already installed)'' else [])"
  "item_enabled (make_item I app) = (app \<notin> I)"
  "item_checked (make_item I app) = (app \<notin> I)"
  by (simp_all add: make_item_def Let_def)

lemma install_selection_items:
  "install_selection (map (make_item I) apps) =
     map (str_replace '' (already installed)'' []) (filter (\<lambda>a. a \<notin> I) apps)"
  by (induction apps) (simp_all add: install_selection_def make_item_fields)

lemma str_replace_step:
  "old \<noteq> [] \<Longrightarrow> str_replace old new (c # cs) =
     (if prefix old (c # cs) then new @ str_replace old new (drop (length old) (c # cs))
      else c # str_replace old new cs)"
  by (subst str_replace.simps) simp

lemma str_replace_Nil: "old \<noteq> [] \<Longrightarrow> str_replace old new [] = []"
  by (subst str_replace.simps) simp

lemma str_replace_length:
  "old \<noteq> [] \<Longrightarrow> length (str_replace old [] s) \<le> length s"
proof (induction s rule: length_induct)
  case (1 s)
  show ?case
  proof (cases s)
    case Nil
    then show ?thesis using "1.prems" by (simp add: str_replace_Nil)
  next
    case (Cons c cs)
    show ?thesis
    proof (cases "prefix old s")
      case True
      have d: "length (drop (length old) s) < length s" using "1.prems" Cons by simp
      with "1.IH" "1.prems"
      have "length (str_replace old [] (drop (length old) s)) \<le> length (drop (length old) s)"
        by blast
      with d have "length (str_replace old [] (drop (length old) s)) \<le> length s" by linarith
      then show ?thesis using "1.prems" True Cons by (simp add: str_replace_step)
    next
      case False
      have "length cs < length s" using Cons by simp
      with "1.IH" "1.prems" have "length (str_replace old [] cs) \<le> length cs" by blast
      then show ?thesis using "1.prems" False Cons by (simp add: str_replace_step)
    qed
  qed
qed

lemma str_replace_shorter:
  "old \<noteq> [] \<Longrightarrow> sublist old s \<Longrightarrow> length (str_replace old [] s) < length s"
proof (induction s)
  case Nil
  then show ?case by simp
next
  case (Cons c cs)
  show ?case
  proof (cases "prefix old (c # cs)")
    case True
    have "length (str_replace old [] (drop (length old) (c # cs))) \<le> length (drop (length old) (c # cs))"
      using Cons.prems(1) by (rule str_replace_length)
    moreover have "length (drop (length old) (c # cs)) < length (c # cs)"
      using Cons.prems(1) by (cases old) simp_all
    ultimately have lt: "length (str_replace old [] (drop (length old) (c # cs))) < length (c # cs)"
      by linarith
    have e: "str_replace old [] (c # cs) = str_replace old [] (drop (length old) (c # cs))"
      using Cons.prems(1) True by (simp add: str_replace_step)
    from lt show ?thesis by (simp only: e)
  next
    case False
    have "sublist old cs" using Cons.prems(2) False by (simp add: sublist_Cons_right)
    then have "length (str_replace old [] cs) < length cs" using Cons.IH Cons.prems(1) by blast
    then show ?thesis using Cons.prems(1) False by (simp add: str_replace_step)
  qed
qed

lemma str_replace_absent:
  "old \<noteq> [] \<Longrightarrow> \<not> sublist old s \<Longrightarrow> str_replace old new s = s"
proof (induction s)
  case Nil
  then show ?case by (simp add: str_replace_Nil)
next
  case (Cons c cs)
  have np: "\<not> prefix old (c # cs)" using Cons.prems(2) by (auto dest: prefix_imp_sublist)
  have "\<not> sublist old cs" using Cons.prems(2) by (simp add: sublist_Cons_right)
  then have "str_replace old new cs = cs" using Cons.IH Cons.prems(1) by blast
  then show ?case using Cons.prems(1) np by (simp add: str_replace_step)
qed

lemma get_brew_apps_firefox:
  "get_brew_apps scripted (firefox_installed @ rest) = (Inr ([''firefox''], []), rest)"
  by (simp add: get_brew_apps_def check_output_def scripted_def firefox_installed_def
        splitlines_def is_linebreak_def)

subsection \<open>The batch executor\<close>

text \<open>
  C1 (as amended). When every call of the binary can be launched, \<open>run\<close> ends by
  emitting two lists: each position of the batch went to exactly one of them (as
  multisets, successes plus failures are the batch), both keep the order of the batch,
  their union is the set of the batch, and they are disjoint when no identifier occurs
  twice in the batch. This holds however many installs fail.
\<close>

theorem run_partition:
  assumes "\<forall>argv w. \<exists>p. fst (os argv w) = Inr p"
  shows "\<exists>successes failures w'.
           run os apps w = (Inr (successes, failures), w')
           \<and> mset successes + mset failures = mset apps
           \<and> set successes \<union> set failures = set apps
           \<and> subseq successes apps \<and> subseq failures apps
           \<and> (distinct apps \<longrightarrow> set successes \<inter> set failures = {})"
proof -
  from run_loop_splits [OF assms, of apps "[]" "[]" w] obtain s' f' w' where
    r: "run_loop os apps [] [] w = (Inr (s', f'), w')"
       "mset s' + mset f' = mset apps" "subseq s' apps" "subseq f' apps"
    by auto
  have m: "mset (s' @ f') = mset apps" using r(2) by simp
  then have "set (s' @ f') = set apps" by (rule mset_eq_setD)
  then have u: "set s' \<union> set f' = set apps" by simp
  have d: "distinct apps \<longrightarrow> set s' \<inter> set f' = {}"
  proof
    assume "distinct apps"
    then have "distinct (s' @ f')" using m by (metis mset_eq_imp_distinct_iff)
    then show "set s' \<inter> set f' = {}" by simp
  qed
  show ?thesis unfolding run_def using r m u d by blast
qed

text \<open>
  The batch \<open>a, b, c\<close> where the install of \<open>b\<close> exits with status 1.
\<close>

theorem run_partition_witness:
  "(\<forall>argv w. \<exists>p. fst ((\<lambda>argv (w::unit).
        (Inr (Completed (if argv = [''brew'', ''install'', ''b''] then 1 else 0) [] []), w))
      argv w) = Inr p)
   \<and> run (\<lambda>argv w. (Inr (Completed (if argv = [''brew'', ''install'', ''b''] then 1 else 0) [] []), w))
       [''a'', ''b'', ''c''] () = (Inr ([''a'', ''c''], [''b'']), ())"
proof -
  let ?os = "\<lambda>argv (w::unit).
    (Inr (Completed (if argv = [''brew'', ''install'', ''b''] then 1 else 0) [] []) :: string + completed, w)"
  have h: "\<forall>argv w. \<exists>p. fst (?os argv w) = Inr p" by simp
  from run_partition [OF h, of "[''a'', ''b'', ''c'']" "()"] h
  show ?thesis by (simp add: run_def check_call_def)
qed

text \<open>
  C1 as stated fails in three ways. An identifier that occurs twice in the batch can
  succeed once and fail once, and is then in both lists. A call that cannot be launched
  ends \<open>run\<close> with an exception, and no lists are emitted. In
  \<open>uninstall_selected\<close> an uninstall that exits with status 1 is not recorded as a
  failure: the message is that the selected apps were uninstalled.
\<close>

theorem batch_partition_counterexample:
  "run scripted [''a'', ''a''] [Inr (Completed 0 [] []), Inr (Completed 1 [] [])]
     = (Inr ([''a''], [''a'']), [])
   \<and> set [''a''] \<inter> set [''a''] \<noteq> ({} :: string set)
   \<and> run scripted [''a''] [] = (Inl (OSError ''No such file or directory''), [])
   \<and> uninstall_selected scripted
         [\<lparr>item_text = ''wget'', item_checked = True, item_enabled = True\<rparr>]
         [Inr (Completed 1 [] ''Error: No such keg'')]
     = (SelectedAppsUninstalled, [])"
  by (simp add: run_def check_call_def scripted_def uninstall_selected_def
        uninstall_brew_app_def truthy_def)

subsection \<open>The adapter\<close>

text \<open>
  C5. \<open>get_brew_apps\<close> asks for the casks and for the formulae in two calls. When both
  children run, a category whose child exits with a non-zero status is the empty list,
  and the other category is still the lines of its child's output; the result is a pair
  of lists, never an exception.
\<close>

theorem get_brew_apps_isolated:
  assumes "os [BREW_PATH, ''list'', ''--cask''] w = (Inr p1, w1)"
      and "os [BREW_PATH, ''list''] w1 = (Inr p2, w2)"
  shows "get_brew_apps os w =
           (Inr (if returncode p1 = 0 then splitlines (stdout p1) else [],
                 if returncode p2 = 0 then splitlines (stdout p2) else []), w2)"
  using assms by (simp add: get_brew_apps_def check_output_def)

theorem get_brew_apps_isolated_witness:
  "get_brew_apps scripted
     [Inr (Completed 1 [] ''Error''), Inr (Completed 0 ''wget\<newline>git\<newline>'' [])]
   = (Inr ([], [''wget'', ''git'']), [])
   \<and> get_brew_apps scripted
     [Inr (Completed 0 ''firefox\<newline>'' []), Inr (Completed 1 [] ''Error'')]
   = (Inr ([''firefox''], []), [])"
proof -
  have a1: "scripted [BREW_PATH, ''list'', ''--cask'']
              [Inr (Completed 1 [] ''Error''), Inr (Completed 0 ''wget\<newline>git\<newline>'' [])]
            = (Inr (Completed 1 [] ''Error''), [Inr (Completed 0 ''wget\<newline>git\<newline>'' [])])"
    by (simp add: scripted_def)
  have a2: "scripted [BREW_PATH, ''list''] [Inr (Completed 0 ''wget\<newline>git\<newline>'' [])]
            = (Inr (Completed 0 ''wget\<newline>git\<newline>'' []), [])"
    by (simp add: scripted_def)
  have b1: "scripted [BREW_PATH, ''list'', ''--cask'']
              [Inr (Completed 0 ''firefox\<newline>'' []), Inr (Completed 1 [] ''Error'')]
            = (Inr (Completed 0 ''firefox\<newline>'' []), [Inr (Completed 1 [] ''Error'')])"
    by (simp add: scripted_def)
  have b2: "scripted [BREW_PATH, ''list''] [Inr (Completed 1 [] ''Error'')]
            = (Inr (Completed 1 [] ''Error''), [])"
    by (simp add: scripted_def)
  from get_brew_apps_isolated [OF a1 a2] get_brew_apps_isolated [OF b1 b2]
  show ?thesis by (simp add: splitlines_def is_linebreak_def)
qed

text \<open>
  C6. \<open>uninstall_brew_app\<close> returns \<open>True\<close> exactly when the child ran and exited with
  status 0. When the child exits with another status, the result is \<open>False\<close> with the
  child's standard error stripped of the white space around it (\<open>strip_trims\<close> says what
  \<open>strip\<close> removes); when the child could not be run, it is \<open>False\<close> with the text of the
  exception.
\<close>

theorem uninstall_brew_app_result:
  "(fst (fst (uninstall_brew_app os app w)) \<longleftrightarrow>
      (\<exists>p. fst (os [BREW_PATH, ''uninstall'', ''--force'', app] w) = Inr p \<and> returncode p = 0))
   \<and> (\<forall>p. fst (os [BREW_PATH, ''uninstall'', ''--force'', app] w) = Inr p \<longrightarrow>
          fst (uninstall_brew_app os app w) =
            (if returncode p = 0 then (True, []) else (False, strip (stderr p))))
   \<and> (\<forall>msg. fst (os [BREW_PATH, ''uninstall'', ''--force'', app] w) = Inl msg \<longrightarrow>
          fst (uninstall_brew_app os app w) = (False, msg))"
  by (auto simp: uninstall_brew_app_def split: prod.splits sum.splits)

theorem uninstall_brew_app_result_witness:
  "fst (uninstall_brew_app scripted ''wget''
          [Inr (Completed 1 [] ''  Error: No such keg \<newline>'')]) = (False, ''Error: No such keg'')
   \<and> fst (uninstall_brew_app scripted ''wget'' [Inr (Completed 0 ''Uninstalling'' ''Warning'')])
       = (True, [])
   \<and> fst (uninstall_brew_app scripted ''wget'' []) = (False, ''No such file or directory'')"
  using uninstall_brew_app_result [of scripted "''wget''"
          "[Inr (Completed 1 [] ''  Error: No such keg \<newline>'')]"]
        uninstall_brew_app_result [of scripted "''wget''"
          "[Inr (Completed 0 ''Uninstalling'' ''Warning'')]"]
        uninstall_brew_app_result [of scripted "''wget''" "[]"]
  by (simp add: scripted_def strip_def isspace_def)

text \<open>
  C4 (as amended). For each of the four adapter operations: a child that exits with a
  non-zero status gives a result of the operation's own type (the empty list for the
  search and for a category of the installed lists, an entry in the failures of \<open>run\<close>,
  \<open>False\<close> with the stripped standard error for an uninstall), never an exception. A
  child that cannot be launched gives such a result in \<open>uninstall_brew_app\<close> only; in
  \<open>search_brew_apps\<close>, \<open>get_brew_apps\<close> and \<open>run\<close> the \<open>OSError\<close> goes on
  to the caller, and \<open>run\<close> returns its lists whenever no call fails to launch.
\<close>

theorem adapter_failures:
  "(\<forall>p. fst (os [BREW_PATH, ''search'', query] w) = Inr p \<longrightarrow>
        fst (search_brew_apps os query w) =
          Inr (if returncode p = 0 then splitlines (stdout p) else []))
   \<and> (\<forall>msg. fst (os [BREW_PATH, ''search'', query] w) = Inl msg \<longrightarrow>
        fst (search_brew_apps os query w) = Inl (OSError msg))
   \<and> (\<forall>p1 w1 p2. os [BREW_PATH, ''list'', ''--cask''] w = (Inr p1, w1) \<longrightarrow>
        fst (os [BREW_PATH, ''list''] w1) = Inr p2 \<longrightarrow>
        fst (get_brew_apps os w) =
          Inr (if returncode p1 = 0 then splitlines (stdout p1) else [],
               if returncode p2 = 0 then splitlines (stdout p2) else []))
   \<and> (\<forall>msg. fst (os [BREW_PATH, ''list'', ''--cask''] w) = Inl msg \<longrightarrow>
        fst (get_brew_apps os w) = Inl (OSError msg))
   \<and> (\<forall>p1 w1 msg. os [BREW_PATH, ''list'', ''--cask''] w = (Inr p1, w1) \<longrightarrow>
        fst (os [BREW_PATH, ''list''] w1) = Inl msg \<longrightarrow>
        fst (get_brew_apps os w) = Inl (OSError msg))
   \<and> (\<forall>p. fst (os [''brew'', ''install'', app] w) = Inr p \<longrightarrow>
        fst (run os [app] w) = Inr (if returncode p = 0 then ([app], []) else ([], [app])))
   \<and> (\<forall>msg. fst (os [''brew'', ''install'', app] w) = Inl msg \<longrightarrow>
        fst (run os (app # apps) w) = Inl (OSError msg))
   \<and> ((\<forall>argv w. \<exists>p. fst (os argv w) = Inr p) \<longrightarrow> (\<exists>r. fst (run os apps w) = Inr r))
   \<and> (\<forall>p. fst (os [BREW_PATH, ''uninstall'', ''--force'', app] w) = Inr p \<longrightarrow>
        fst (uninstall_brew_app os app w) =
          (if returncode p = 0 then (True, []) else (False, strip (stderr p))))
   \<and> (\<forall>msg. fst (os [BREW_PATH, ''uninstall'', ''--force'', app] w) = Inl msg \<longrightarrow>
        fst (uninstall_brew_app os app w) = (False, msg))"
proof -
  have s1: "\<forall>p. fst (os [BREW_PATH, ''search'', query] w) = Inr p \<longrightarrow>
        fst (search_brew_apps os query w) =
          Inr (if returncode p = 0 then splitlines (stdout p) else [])"
    by (auto simp: search_brew_apps_def check_output_def split: prod.splits sum.splits)
  have s2: "\<forall>msg. fst (os [BREW_PATH, ''search'', query] w) = Inl msg \<longrightarrow>
        fst (search_brew_apps os query w) = Inl (OSError msg)"
    by (auto simp: search_brew_apps_def check_output_def split: prod.splits sum.splits)
  have g1: "\<forall>p1 w1 p2. os [BREW_PATH, ''list'', ''--cask''] w = (Inr p1, w1) \<longrightarrow>
        fst (os [BREW_PATH, ''list''] w1) = Inr p2 \<longrightarrow>
        fst (get_brew_apps os w) =
          Inr (if returncode p1 = 0 then splitlines (stdout p1) else [],
               if returncode p2 = 0 then splitlines (stdout p2) else [])"
    by (auto simp: get_brew_apps_def check_output_def split: prod.splits sum.splits)
  have g2: "\<forall>msg. fst (os [BREW_PATH, ''list'', ''--cask''] w) = Inl msg \<longrightarrow>
        fst (get_brew_apps os w) = Inl (OSError msg)"
    by (auto simp: get_brew_apps_def check_output_def split: prod.splits sum.splits)
  have g3: "\<forall>p1 w1 msg. os [BREW_PATH, ''list'', ''--cask''] w = (Inr p1, w1) \<longrightarrow>
        fst (os [BREW_PATH, ''list''] w1) = Inl msg \<longrightarrow>
        fst (get_brew_apps os w) = Inl (OSError msg)"
    by (auto simp: get_brew_apps_def check_output_def split: prod.splits sum.splits)
  have r1: "\<forall>p. fst (os [''brew'', ''install'', app] w) = Inr p \<longrightarrow>
        fst (run os [app] w) = Inr (if returncode p = 0 then ([app], []) else ([], [app]))"
    by (auto simp: run_def check_call_def split: prod.splits sum.splits)
  have r2: "\<forall>msg. fst (os [''brew'', ''install'', app] w) = Inl msg \<longrightarrow>
        fst (run os (app # apps) w) = Inl (OSError msg)"
    by (auto simp: run_def check_call_def split: prod.splits sum.splits)
  have r3: "(\<forall>argv w. \<exists>p. fst (os argv w) = Inr p) \<longrightarrow> (\<exists>r. fst (run os apps w) = Inr r)"
    by (rule impI) (rule run_returns)
  have u1: "\<forall>p. fst (os [BREW_PATH, ''uninstall'', ''--force'', app] w) = Inr p \<longrightarrow>
        fst (uninstall_brew_app os app w) =
          (if returncode p = 0 then (True, []) else (False, strip (stderr p)))"
    by (auto simp: uninstall_brew_app_def split: prod.splits sum.splits)
  have u2: "\<forall>msg. fst (os [BREW_PATH, ''uninstall'', ''--force'', app] w) = Inl msg \<longrightarrow>
        fst (uninstall_brew_app os app w) = (False, msg)"
    by (auto simp: uninstall_brew_app_def split: prod.splits sum.splits)
  from s1 s2 g1 g2 g3 r1 r2 r3 u1 u2 show ?thesis by blast
qed

theorem adapter_failures_witness:
  "fst (search_brew_apps scripted ''wget'' [Inr (Completed 1 [] ''Error: No formulae or casks found'')])
     = Inr []
   \<and> fst (search_brew_apps scripted ''wget'' []) = Inl (OSError ''No such file or directory'')
   \<and> fst (get_brew_apps scripted [Inr (Completed 1 [] []), Inr (Completed 1 [] [])]) = Inr ([], [])
   \<and> fst (get_brew_apps scripted []) = Inl (OSError ''No such file or directory'')
   \<and> fst (get_brew_apps scripted [Inr (Completed 0 [] [])]) = Inl (OSError ''No such file or directory'')
   \<and> fst (run scripted [''wget''] [Inr (Completed 1 [] [])]) = Inr ([], [''wget''])
   \<and> fst (run scripted [''wget'', ''git''] []) = Inl (OSError ''No such file or directory'')
   \<and> fst (uninstall_brew_app scripted ''wget'' [Inr (Completed 1 [] ''Error'')]) = (False, ''Error'')
   \<and> fst (uninstall_brew_app scripted ''wget'' []) = (False, ''No such file or directory'')"
  using adapter_failures [of scripted "''wget''"
          "[Inr (Completed 1 [] ''Error: No formulae or casks found'')]" "''wget''" "[]"]
        adapter_failures [of scripted "''wget''" "[]" "''wget''" "[''git'']"]
        adapter_failures [of scripted "''wget''" "[Inr (Completed 1 [] []), Inr (Completed 1 [] [])]"
          "''wget''" "[]"]
        adapter_failures [of scripted "''wget''" "[Inr (Completed 0 [] [])]" "''wget''" "[]"]
        adapter_failures [of scripted "''wget''" "[Inr (Completed 1 [] [])]" "''wget''" "[]"]
        adapter_failures [of scripted "''wget''" "[Inr (Completed 1 [] ''Error'')]" "''wget''" "[]"]
  by (simp add: scripted_def strip_def isspace_def)

text \<open>
  C4 as stated fails: when the binary cannot be launched, listing, searching and
  installing end with the \<open>OSError\<close>, which only \<^verbatim>\<open>except Exception\<close> of the
  uninstall would catch.
\<close>

theorem adapter_launch_failure_counterexample:
  "get_brew_apps scripted [] = (Inl (OSError ''No such file or directory''), [])
   \<and> search_brew_apps scripted ''wget'' [] = (Inl (OSError ''No such file or directory''), [])
   \<and> run scripted [''wget''] [] = (Inl (OSError ''No such file or directory''), [])"
  by (simp add: get_brew_apps_def search_brew_apps_def run_def check_output_def check_call_def
        scripted_def)

subsection \<open>The import dialog\<close>

text \<open>
  C7. For a document that is an object whose \<open>cask\<close> and \<open>formula\<close> members, where
  present, are arrays of strings, the two imported sets exist and their union is the set
  of the strings of both arrays, each string once however often and in whichever array
  it occurs. A member that is missing counts as the empty array. A member with another
  name changes nothing.
\<close>

theorem import_sets_union:
  "(dict_get members ''cask'' (JArr []) = JArr (map JStr casks) \<longrightarrow>
    dict_get members ''formula'' (JArr []) = JArr (map JStr formulae) \<longrightarrow>
      (\<exists>import_casks import_formulae.
         import_sets (Inr (JObj members)) = Inr (import_casks, import_formulae)
         \<and> import_casks \<union> import_formulae = JStr ` (set casks \<union> set formulae)))
   \<and> (map_of (rev members) k = None \<longrightarrow> dict_get members k (JArr []) = JArr [])
   \<and> (k \<noteq> ''cask'' \<longrightarrow> k \<noteq> ''formula'' \<longrightarrow>
        import_sets (Inr (JObj (before @ (k, v) # after))) = import_sets (Inr (JObj (before @ after))))"
proof -
  have a: "dict_get members ''cask'' (JArr []) = JArr (map JStr casks) \<longrightarrow>
    dict_get members ''formula'' (JArr []) = JArr (map JStr formulae) \<longrightarrow>
      (\<exists>import_casks import_formulae.
         import_sets (Inr (JObj members)) = Inr (import_casks, import_formulae)
         \<and> import_casks \<union> import_formulae = JStr ` (set casks \<union> set formulae))"
    by (auto simp: import_sets_strs)
  have b: "map_of (rev members) k = None \<longrightarrow> dict_get members k (JArr []) = JArr []"
    by (simp add: dict_get_def)
  have c1: "k \<noteq> ''cask'' \<Longrightarrow>
      dict_get (before @ (k, v) # after) ''cask'' (JArr []) = dict_get (before @ after) ''cask'' (JArr [])"
    by (simp add: dict_get_def map_add_def split: option.splits)
  have c2: "k \<noteq> ''formula'' \<Longrightarrow>
      dict_get (before @ (k, v) # after) ''formula'' (JArr []) = dict_get (before @ after) ''formula'' (JArr [])"
    by (simp add: dict_get_def map_add_def split: option.splits)
  have "k \<noteq> ''cask'' \<longrightarrow> k \<noteq> ''formula'' \<longrightarrow>
        import_sets (Inr (JObj (before @ (k, v) # after))) = import_sets (Inr (JObj (before @ after)))"
    by (simp add: import_sets_def c1 c2 cong: sum.case_cong)
  with a b show ?thesis by blast
qed

text \<open>
  The document with no cask and \<open>wget\<close> twice among the formulae, a document with
  no \<open>cask\<close> member, and a document with a \<open>version\<close> member.
\<close>

theorem import_sets_union_witness:
  "(\<exists>import_casks import_formulae.
      import_sets (Inr (JObj [(''cask'', JArr []), (''formula'', JArr [JStr ''wget'', JStr ''wget''])]))
        = Inr (import_casks, import_formulae)
      \<and> import_casks \<union> import_formulae = {JStr ''wget''})
   \<and> dict_get [(''formula'', JArr [JStr ''wget''])] ''cask'' (JArr []) = JArr []
   \<and> import_sets (Inr (JObj [(''cask'', JArr [JStr ''git'']), (''version'', JNum 2)]))
       = import_sets (Inr (JObj [(''cask'', JArr [JStr ''git''])]))"
  using import_sets_union [of "[(''cask'', JArr []), (''formula'', JArr [JStr ''wget'', JStr ''wget''])]"
          "[]" "[''wget'', ''wget'']" "''cask''" "[]" "JNull" "[]"]
        import_sets_union [of "[(''formula'', JArr [JStr ''wget''])]" "[]" "[''wget'']" "''cask''"
          "[]" "JNull" "[]"]
        import_sets_union [of "[]" "[]" "[]" "''version''" "[(''cask'', JArr [JStr ''git''])]"
          "JNum 2" "[]"]
  by (simp add: dict_get_def)

text \<open>
  C8. When the chosen file cannot be read as JSON, the import shows the error and
  returns at once: the result is the error message and not a dialog, and the outside
  world is the one the import started in, so no child process was run and no install
  was started.
\<close>

theorem import_invalid_json_aborts:
  assumes "path \<noteq> []" and "read_json fs path = Inl e"
  shows "import_and_install_json os path fs w = (Inr (ImportError e), w)"
  using assms by (simp add: import_and_install_json_def import_sets_def)

theorem import_invalid_json_aborts_witness:
  "import_and_install_json scripted ''empty.json'' example_files firefox_installed =
     (Inr (ImportError (JSONDecodeError ''Expecting value: line 1 column 1 (char 0)'')),
      firefox_installed)"
proof -
  have h1: "''empty.json'' \<noteq> []" by simp
  have h2: "read_json example_files ''empty.json'' =
              Inl (JSONDecodeError ''Expecting value: line 1 column 1 (char 0)'')"
    by (simp add: example_files_def)
  from import_invalid_json_aborts [OF h1 h2] show ?thesis .
qed

text \<open>
  C2. The dialog has one item for each imported identifier, in ascending order of the
  identifiers: the items are built from a list of identifiers that is sorted, has no
  duplicates and has exactly the imported identifiers as its elements. There is only one
  such list, so the items depend on nothing but the imported set and the installed set:
  neither on the order of the arrays in the document nor on the order in which a set is
  traversed.
\<close>

theorem import_dialog_sorted:
  assumes "path \<noteq> []"
      and "read_json fs path = Inr (JObj members)"
      and "dict_get members ''cask'' (JArr []) = JArr (map JStr casks)"
      and "dict_get members ''formula'' (JArr []) = JArr (map JStr formulae)"
      and "get_brew_apps os w = (Inr (cask_apps, formula_apps), w')"
  shows "\<exists>apps. import_and_install_json os path fs w =
            (Inr (ConfirmDialog (map (make_item (set cask_apps \<union> set formula_apps)) apps)), w')
          \<and> sorted apps \<and> distinct apps \<and> set apps = set casks \<union> set formulae
          \<and> length apps = card (set casks \<union> set formulae)
          \<and> (\<forall>apps'. sorted apps' \<and> distinct apps' \<and> set apps' = set casks \<union> set formulae
                \<longrightarrow> apps' = apps)"
proof -
  let ?D = "set casks \<union> set formulae"
  let ?apps = "sorted_list_of_set ?D"
  have f: "finite ?D" by simp
  have 1: "sorted ?apps" "distinct ?apps" "set ?apps = ?D" using f by simp_all
  have 2: "length ?apps = card ?D" by simp
  have 3: "\<forall>apps'. sorted apps' \<and> distinct apps' \<and> set apps' = ?D \<longrightarrow> apps' = ?apps"
    using 1 by (metis sorted_distinct_set_unique)
  from import_dialog [OF assms] 1 2 3 show ?thesis by blast
qed

theorem import_dialog_sorted_witness:
  "import_and_install_json scripted ''apps.json'' example_files firefox_installed =
     (Inr (ConfirmDialog
        [\<lparr>item_text = ''firefox (already installed)'', item_checked = False, item_enabled = False\<rparr>,
         \<lparr>item_text = ''vscode'', item_checked = True, item_enabled = True\<rparr>]), [])"
proof -
  have h1: "''apps.json'' \<noteq> []" by simp
  have h2: "read_json example_files ''apps.json'' =
              Inr (JObj [(''cask'', JArr [JStr ''vscode'', JStr ''firefox'']),
                         (''formula'', JArr [JStr ''vscode''])])"
    by (simp add: example_files_def)
  have h3: "dict_get [(''cask'', JArr [JStr ''vscode'', JStr ''firefox'']),
                      (''formula'', JArr [JStr ''vscode''])] ''cask'' (JArr [])
            = JArr (map JStr [''vscode'', ''firefox''])"
    by (simp add: dict_get_def)
  have h4: "dict_get [(''cask'', JArr [JStr ''vscode'', JStr ''firefox'']),
                      (''formula'', JArr [JStr ''vscode''])] ''formula'' (JArr [])
            = JArr (map JStr [''vscode''])"
    by (simp add: dict_get_def)
  have h5: "get_brew_apps scripted firefox_installed = (Inr ([''firefox''], []), [])"
    using get_brew_apps_firefox [of "[]"] by simp
  from import_dialog_sorted [OF h1 h2 h3 h4 h5] obtain apps where
    a: "import_and_install_json scripted ''apps.json'' example_files firefox_installed =
          (Inr (ConfirmDialog (map (make_item (set [''firefox''] \<union> set [])) apps)), [])"
    and b: "\<forall>apps'. sorted apps' \<and> distinct apps' \<and>
              set apps' = set [''vscode'', ''firefox''] \<union> set [''vscode''] \<longrightarrow> apps' = apps"
    by blast
  have "sorted [''firefox'', ''vscode''] \<and> distinct [''firefox'', ''vscode''] \<and>
        set [''firefox'', ''vscode''] = set [''vscode'', ''firefox''] \<union> set [''vscode'']"
    by auto
  with b have "apps = [''firefox'', ''vscode'']" by blast
  with a show ?thesis by (simp add: make_item_def)
qed

text \<open>
  C3. The item of an identifier carries the mark \<open>(already installed)\<close> exactly when
  the identifier is among the installed casks or the installed formulae; it is enabled
  exactly when it is not, and it is checked exactly when it is enabled.
\<close>

theorem import_dialog_flags:
  assumes "path \<noteq> []"
      and "read_json fs path = Inr (JObj members)"
      and "dict_get members ''cask'' (JArr []) = JArr (map JStr casks)"
      and "dict_get members ''formula'' (JArr []) = JArr (map JStr formulae)"
      and "get_brew_apps os w = (Inr (cask_apps, formula_apps), w')"
  shows "\<exists>items apps. import_and_install_json os path fs w = (Inr (ConfirmDialog items), w')
          \<and> apps = sorted_list_of_set (set casks \<union> set formulae)
          \<and> length items = length apps
          \<and> (\<forall>i < length items.
                item_text (items ! i) =
                  apps ! i @ (if apps ! i \<in> set cask_apps \<union> set formula_apps
                              then '' (already installed)'' else [])
                \<and> (item_enabled (items ! i) \<longleftrightarrow> apps ! i \<notin> set cask_apps \<union> set formula_apps)
                \<and> item_checked (items ! i) = item_enabled (items ! i))"
  using import_dialog [OF assms] by (simp add: make_item_fields)

theorem import_dialog_flags_witness:
  "\<exists>items. import_and_install_json scripted ''apps.json'' example_files firefox_installed =
              (Inr (ConfirmDialog items), [])
     \<and> length items = 2
     \<and> item_text (items ! 0) = ''firefox (already installed)''
     \<and> \<not> item_enabled (items ! 0) \<and> \<not> item_checked (items ! 0)
     \<and> item_text (items ! 1) = ''vscode''
     \<and> item_enabled (items ! 1) \<and> item_checked (items ! 1)"
proof -
  have h1: "''apps.json'' \<noteq> []" by simp
  have h2: "read_json example_files ''apps.json'' =
              Inr (JObj [(''cask'', JArr [JStr ''vscode'', JStr ''firefox'']),
                         (''formula'', JArr [JStr ''vscode''])])"
    by (simp add: example_files_def)
  have h3: "dict_get [(''cask'', JArr [JStr ''vscode'', JStr ''firefox'']),
                      (''formula'', JArr [JStr ''vscode''])] ''cask'' (JArr [])
            = JArr (map JStr [''vscode'', ''firefox''])"
    by (simp add: dict_get_def)
  have h4: "dict_get [(''cask'', JArr [JStr ''vscode'', JStr ''firefox'']),
                      (''formula'', JArr [JStr ''vscode''])] ''formula'' (JArr [])
            = JArr (map JStr [''vscode''])"
    by (simp add: dict_get_def)
  have h5: "get_brew_apps scripted firefox_installed = (Inr ([''firefox''], []), [])"
    using get_brew_apps_firefox [of "[]"] by simp
  have ev: "sorted_list_of_set (set [''vscode'', ''firefox''] \<union> set [''vscode''])
              = [''firefox'', ''vscode'']"
    by code_simp
  from import_dialog_flags [OF h1 h2 h3 h4 h5] obtain items where
    a: "import_and_install_json scripted ''apps.json'' example_files firefox_installed =
          (Inr (ConfirmDialog items), [])"
    and l: "length items = length [''firefox'', ''vscode'']"
    and b: "\<forall>i < length items.
                item_text (items ! i) =
                  [''firefox'', ''vscode''] ! i @
                    (if [''firefox'', ''vscode''] ! i \<in> set [''firefox''] \<union> set []
                     then '' (already installed)'' else [])
                \<and> (item_enabled (items ! i) \<longleftrightarrow>
                     [''firefox'', ''vscode''] ! i \<notin> set [''firefox''] \<union> set [])
                \<and> item_checked (items ! i) = item_enabled (items ! i)"
    unfolding ev by blast
  from l have l2: "length items = 2" by simp
  from b l2 have "item_text (items ! 0) = ''firefox (already installed)''
     \<and> \<not> item_enabled (items ! 0) \<and> \<not> item_checked (items ! 0)"
    by (simp del: One_nat_def)
  moreover from b l2 have "item_text (items ! 1) = ''vscode''
     \<and> item_enabled (items ! 1) \<and> item_checked (items ! 1)"
    by simp
  ultimately show ?thesis using a l2 by blast
qed

text \<open>
  C9. Exporting the installed lists to a file and importing that file while the
  installed sets are the same gives a dialog with one item for each installed
  identifier, where every item is disabled, unchecked and marked as already installed;
  the selection to install is empty, and \<open>do_install\<close> reports that no apps are
  selected.
\<close>

theorem export_import_roundtrip:
  assumes "path \<noteq> []"
      and "write_error fs path = None"
      and "get_brew_apps os w = (Inr (cask_apps, formula_apps), w1)"
      and "get_brew_apps os w2 = (Inr (cask_apps', formula_apps'), w3)"
      and "set cask_apps' = set cask_apps"
      and "set formula_apps' = set formula_apps"
  shows "\<exists>fs' items. export_installed_json os path fs w = (Inr fs', w1)
          \<and> import_and_install_json os path fs' w2 = (Inr (ConfirmDialog items), w3)
          \<and> length items = card (set cask_apps \<union> set formula_apps)
          \<and> (\<forall>it \<in> set items. \<not> item_enabled it \<and> \<not> item_checked it
                \<and> suffix '' (already installed)'' (item_text it))
          \<and> install_selection items = []
          \<and> do_install os items w3 = (Inr NoAppsSelected, w3)"
proof -
  let ?data = "[(''cask'', JArr (map JStr cask_apps)), (''formula'', JArr (map JStr formula_apps))]"
  let ?fs' = "fs\<lparr>read_json := (read_json fs)(path := Inr (JObj ?data))\<rparr>"
  let ?I = "set cask_apps \<union> set formula_apps"
  let ?items = "map (make_item ?I) (sorted_list_of_set ?I)"
  have ex: "export_installed_json os path fs w = (Inr ?fs', w1)"
    using assms(1,2,3) by (simp add: export_installed_json_def)
  have r: "read_json ?fs' path = Inr (JObj ?data)" by simp
  have c: "dict_get ?data ''cask'' (JArr []) = JArr (map JStr cask_apps)"
    by (simp add: dict_get_def)
  have f: "dict_get ?data ''formula'' (JArr []) = JArr (map JStr formula_apps)"
    by (simp add: dict_get_def)
  have im: "import_and_install_json os path ?fs' w2 = (Inr (ConfirmDialog ?items), w3)"
    using import_dialog [OF assms(1) r c f assms(4)] assms(5,6) by simp
  have len: "length ?items = card ?I" by simp
  have fl: "\<forall>it \<in> set ?items. \<not> item_enabled it \<and> \<not> item_checked it
              \<and> suffix '' (already installed)'' (item_text it)"
    by (auto simp: make_item_fields suffix_def)
  have sel: "install_selection ?items = []"
    by (simp add: install_selection_items)
  have di: "do_install os ?items w3 = (Inr NoAppsSelected, w3)"
    using sel by (simp add: do_install_def)
  from ex im len fl sel di show ?thesis by blast
qed

theorem export_import_roundtrip_witness:
  "\<exists>fs' items.
     export_installed_json scripted ''out.json'' example_files (firefox_installed @ firefox_installed)
       = (Inr fs', firefox_installed)
     \<and> import_and_install_json scripted ''out.json'' fs' firefox_installed
       = (Inr (ConfirmDialog items), [])
     \<and> length items = 1
     \<and> install_selection items = []
     \<and> do_install scripted items [] = (Inr NoAppsSelected, [])"
proof -
  have h1: "''out.json'' \<noteq> []" by simp
  have h2: "write_error example_files ''out.json'' = None" by (simp add: example_files_def)
  have h3: "get_brew_apps scripted (firefox_installed @ firefox_installed)
              = (Inr ([''firefox''], []), firefox_installed)"
    by (rule get_brew_apps_firefox)
  have h4: "get_brew_apps scripted firefox_installed = (Inr ([''firefox''], []), [])"
    using get_brew_apps_firefox [of "[]"] by simp
  have c: "card (set [''firefox''] \<union> set ([] :: string list)) = 1" by simp
  from export_import_roundtrip [OF h1 h2 h3 h4 refl refl] show ?thesis
    unfolding c by blast
qed

text \<open>
  C10. The names that \<open>do_install\<close> hands to the installer are the texts of the
  enabled and checked items with every occurrence of \<open>(already installed)\<close>, with its
  leading blank, deleted. For an identifier that is not installed and contains that
  text, the name handed over is shorter than, hence different from, the identifier;
  an identifier without it is handed over as it is.
\<close>

theorem install_selection_strips_label:
  "install_selection (map (make_item I) apps) =
     map (str_replace '' (already installed)'' []) (filter (\<lambda>a. a \<notin> I) apps)
   \<and> (\<forall>app. app \<notin> I \<and> sublist '' (already installed)'' app \<longrightarrow>
         install_selection [make_item I app] = [str_replace '' (already installed)'' [] app]
         \<and> str_replace '' (already installed)'' [] app \<noteq> app)
   \<and> (\<forall>app. app \<notin> I \<and> \<not> sublist '' (already installed)'' app \<longrightarrow>
         install_selection [make_item I app] = [app])"
proof -
  have 1: "install_selection [make_item I app] = [str_replace '' (already installed)'' [] app]"
    if "app \<notin> I" for app
    using that install_selection_items [of I "[app]"] by simp
  have 2: "str_replace '' (already installed)'' [] app \<noteq> app"
    if "sublist '' (already installed)'' app" for app
  proof -
    have "length (str_replace '' (already installed)'' [] app) < length app"
      using that by (intro str_replace_shorter) simp_all
    then show ?thesis by auto
  qed
  have 3: "str_replace '' (already installed)'' [] app = app"
    if "\<not> sublist '' (already installed)'' app" for app
    using that by (intro str_replace_absent) simp_all
  from 1 2 3 install_selection_items [of I apps] show ?thesis by simp
qed

theorem install_selection_strips_label_witness:
  "install_selection [make_item {} ''foo (already installed)''] = [''foo'']
   \<and> ''foo'' \<noteq> ''foo (already installed)''
   \<and> install_selection [make_item {} ''wget''] = [''wget'']"
proof -
  have s: "sublist '' (already installed)'' ''foo (already installed)''"
    using sublist_appendI [of "'' (already installed)''" "''foo''" "[]"] by simp
  have n: "\<not> sublist '' (already installed)'' ''wget''"
    by (simp add: sublist_Cons_right)
  have ev: "str_replace '' (already installed)'' [] ''foo (already installed)'' = ''foo''"
    by code_simp
  from install_selection_strips_label [of "{}" "[]"] s n ev
  have "install_selection [make_item {} ''foo (already installed)''] = [''foo'']"
   and "install_selection [make_item {} ''wget''] = [''wget'']"
    by auto
  then show ?thesis by simp
qed

end
